theory Spec2Isabelle
  imports Complex_Main "HOL-Library.Multiset"
begin

section \<open>Geometry types\<close>

text \<open>
  The data model of \<^verbatim>\<open>apply_defects.py\<close>. A pymatgen \<^verbatim>\<open>Structure\<close> is a lattice
  matrix with an ordered list of sites; a site carries its element symbol
  (\<^verbatim>\<open>site.specie.symbol\<close>) and its fractional coordinates (\<^verbatim>\<open>site.frac_coords\<close>).
  Coordinates are numpy floats in the source; they are modelled by exact reals, so no
  statement below speaks about rounding of coordinates. The valence sum, whose rounding
  decides the electron count, is modelled in double precision.
\<close>

type_synonym vec3 = "real \<times> real \<times> real"

type_synonym lattice_matrix = "vec3 \<times> vec3 \<times> vec3"

record site =
  specie :: string
  frac_coords :: vec3

record Structure =
  lattice :: lattice_matrix
  sites :: "site list"

text \<open>
  Every \<^verbatim>\<open>raise\<close> of the script, and every failure of a library call it makes, is a
  value of this type. The script itself raises \<^verbatim>\<open>ValueError\<close> with three different
  messages and \<^verbatim>\<open>FileNotFoundError\<close>; the constructors keep the message's data.
\<close>

datatype error =
    InvalidMultiplierError
  | InsufficientAtomsError string
      \<comment> \<open>\<^verbatim>\<open>ValueError(f"Not enough {elem} atoms to remove")\<close>\<close>
  | InsufficientSpaceError string int int
      \<comment> \<open>\<^verbatim>\<open>ValueError(f"Could only add {added} of {change} requested {elem} atoms ...")\<close>\<close>
  | UnknownElementError string
      \<comment> \<open>\<^verbatim>\<open>ValueError(f"Element {sym} not in POTCAR")\<close>\<close>
  | InvalidElementError string
      \<comment> \<open>\<^verbatim>\<open>Element(elem)\<close> on a string that is no element symbol\<close>
  | MissingTemplateError "string list"
      \<comment> \<open>\<^verbatim>\<open>FileNotFoundError\<close>, with the path that is missing\<close>
  | ResourceReadError "string list"
      \<comment> \<open>a file that the reader asked for cannot parse\<close>
  | KeyError string
  | FileExistsError "string list"
  | EmptyStructureError
      \<comment> \<open>\<^verbatim>\<open>ValueError\<close> of pymatgen's \<^verbatim>\<open>from_sites\<close>: a structure needs at least one site\<close>

text \<open>
  What the script takes from pymatgen without defining it: the table of element symbols
  behind \<^verbatim>\<open>Element(elem)\<close>, and the minimum-image distance behind
  \<^verbatim>\<open>structure.lattice.get_all_distances\<close>. Both are parameters of the model.
\<close>

record externals =
  is_element :: "string \<Rightarrow> bool"
  get_all_distances :: "lattice_matrix \<Rightarrow> vec3 \<Rightarrow> vec3 \<Rightarrow> real"

section \<open>Empty-site locator\<close>

text \<open>\<^verbatim>\<open>np.linspace(0, 1, grid_size, endpoint=False)\<close>: the points \<open>i / grid_size\<close>.\<close>

definition grid_size :: nat where
  "grid_size = 10"

definition linspace :: "nat \<Rightarrow> real list" where
  "linspace n = map (\<lambda>i. real i / real n) [0..<n]"

text \<open>
  \<^verbatim>\<open>np.all(dists > min_distance)\<close>, where \<^verbatim>\<open>dists\<close> holds the distance of the trial
  point to every site of the structure. Over no sites at all \<^verbatim>\<open>np.all\<close> is true; what
  the library does when asked for the distances to an empty array is not modelled.
\<close>

definition far_from_all :: "externals \<Rightarrow> Structure \<Rightarrow> real \<Rightarrow> vec3 \<Rightarrow> bool" where
  "far_from_all ext s min_distance trial =
     list_all (\<lambda>c. get_all_distances ext (lattice s) trial c > min_distance)
       (map frac_coords (sites s))"

text \<open>The three nested loops of \<^verbatim>\<open>find_empty_sites\<close>, each appending to \<^verbatim>\<open>candidates\<close>.\<close>

definition find_empty_sites :: "externals \<Rightarrow> Structure \<Rightarrow> real \<Rightarrow> vec3 list" where
  "find_empty_sites ext s min_distance =
     concat (map (\<lambda>x.
       concat (map (\<lambda>y.
         concat (map (\<lambda>z.
           if far_from_all ext s min_distance (x, y, z) then [(x, y, z)] else [])
           (linspace grid_size)))
         (linspace grid_size)))
       (linspace grid_size))"

section \<open>Defect delta applier\<close>

text \<open>
  A delta is a Python dict from element symbol to a signed count; the loops run over
  \<^verbatim>\<open>delta.items()\<close>, in insertion order, so it is an association list.
\<close>

type_synonym delta = "(string \<times> int) list"

text \<open>\<^verbatim>\<open>[i for i, site in enumerate(mod_structure) if site.specie.symbol == elem]\<close>\<close>

definition indices_of :: "string \<Rightarrow> site list \<Rightarrow> nat list" where
  "indices_of elem ss = filter (\<lambda>i. specie (ss ! i) = elem) [0..<length ss]"

text \<open>\<^verbatim>\<open>mod_structure.remove_sites([i])\<close>\<close>

definition remove_sites :: "nat \<Rightarrow> site list \<Rightarrow> site list" where
  "remove_sites i ss = take i ss @ drop (Suc i) ss"

text \<open>
  The inner loop of the removal phase: for each index, in the order given, record the
  coordinates of the site and then delete it.
\<close>

fun remove_loop :: "nat list \<Rightarrow> site list \<Rightarrow> vec3 list \<Rightarrow> site list \<times> vec3 list" where
  "remove_loop [] ss removed_coords = (ss, removed_coords)"
| "remove_loop (i # is) ss removed_coords =
     remove_loop is (remove_sites i ss) (removed_coords @ [frac_coords (ss ! i)])"

text \<open>
  The first loop over \<^verbatim>\<open>delta.items()\<close>. The state (sites of the copy, recorded
  coordinates) is returned also when the loop raises, since the deletions done so far
  stay in the copy.
\<close>

fun removal_phase :: "delta \<Rightarrow> site list \<Rightarrow> vec3 list \<Rightarrow> (site list \<times> vec3 list) \<times> error option" where
  "removal_phase [] ss removed_coords = ((ss, removed_coords), None)"
| "removal_phase ((elem, change) # rest) ss removed_coords =
     (if change < 0 then
        (let indices = indices_of elem ss in
         if int (length indices) < \<bar>change\<bar> then
           ((ss, removed_coords), Some (InsufficientAtomsError elem))
         else
           (case remove_loop (rev (sort (take (nat \<bar>change\<bar>) indices))) ss removed_coords of
              (ss', removed_coords') \<Rightarrow> removal_phase rest ss' removed_coords'))
      else removal_phase rest ss removed_coords)"

text \<open>
  \<^verbatim>\<open>for coord in coords: append(elem, coord); added += 1; if added == change: break\<close>
\<close>

fun append_loop :: "string \<Rightarrow> int \<Rightarrow> vec3 list \<Rightarrow> site list \<Rightarrow> int \<Rightarrow> site list \<times> int" where
  "append_loop elem change [] ss added = (ss, added)"
| "append_loop elem change (coord # coords) ss added =
     (let ss' = ss @ [\<lparr>specie = elem, frac_coords = coord\<rparr>]; added' = added + 1 in
      if added' = change then (ss', added') else append_loop elem change coords ss' added')"

text \<open>
  The second loop over \<^verbatim>\<open>delta.items()\<close>. \<^verbatim>\<open>removed_coords\<close> is only read: every
  element with a positive count iterates over the whole list from its start. The locator
  is called at most once per element, on the structure as modified so far.
  \<^verbatim>\<open>Element(elem)\<close> is evaluated at the first append, so it is only reached when there
  is a coordinate to append.
\<close>

fun addition_phase ::
  "(string \<Rightarrow> bool) \<Rightarrow> (Structure \<Rightarrow> vec3 list) \<Rightarrow> lattice_matrix \<Rightarrow> delta \<Rightarrow> vec3 list \<Rightarrow>
   site list \<Rightarrow> site list \<times> error option" where
  "addition_phase is_el loc L [] removed_coords ss = (ss, None)"
| "addition_phase is_el loc L ((elem, change) # rest) removed_coords ss =
     (if change > 0 then
        (if removed_coords \<noteq> [] \<and> \<not> is_el elem then (ss, Some (InvalidElementError elem))
         else
           (case append_loop elem change removed_coords ss 0 of (ss1, added1) \<Rightarrow>
              if added1 < change then
                (let empty_sites = loc \<lparr>lattice = L, sites = ss1\<rparr> in
                 if empty_sites \<noteq> [] \<and> \<not> is_el elem then (ss1, Some (InvalidElementError elem))
                 else
                   (case append_loop elem change empty_sites ss1 added1 of (ss2, added2) \<Rightarrow>
                      if added2 < change then
                        (ss2, Some (InsufficientSpaceError elem added2 change))
                      else addition_phase is_el loc L rest removed_coords ss2))
              else addition_phase is_el loc L rest removed_coords ss1))
      else addition_phase is_el loc L rest removed_coords ss)"

text \<open>
  Structures are mutable objects; the heap is the list of the objects allocated so far
  and a reference is an index into it. \<^verbatim>\<open>structure.copy()\<close> allocates a new object
  with the same lattice and sites.
\<close>

type_synonym heap = "Structure list"

definition copy :: "heap \<Rightarrow> nat \<Rightarrow> heap \<times> nat" where
  "copy h p = (h @ [h ! p], length h)"

text \<open>
  \<^verbatim>\<open>apply_defect\<close>, with the locator as an argument. Every mutation goes to the object
  \<^verbatim>\<open>mod_structure\<close> refers to; on an exception that object keeps the changes made so
  far, and no reference to it is returned.
\<close>

definition apply_defect_with ::
  "(string \<Rightarrow> bool) \<Rightarrow> (Structure \<Rightarrow> vec3 list) \<Rightarrow> heap \<Rightarrow> nat \<Rightarrow> delta \<Rightarrow> heap \<times> (error + nat)" where
  "apply_defect_with is_el loc h p dl =
     (case copy h p of (h1, mod_structure) \<Rightarrow>
        (case removal_phase dl (sites (h1 ! mod_structure)) [] of
           ((ss, removed_coords), Some e) \<Rightarrow>
             (h1[mod_structure := (h1 ! mod_structure)\<lparr>sites := ss\<rparr>], Inl e)
         | ((ss, removed_coords), None) \<Rightarrow>
             (case addition_phase is_el loc (lattice (h1 ! mod_structure)) dl removed_coords ss of
                (ss', Some e) \<Rightarrow> (h1[mod_structure := (h1 ! mod_structure)\<lparr>sites := ss'\<rparr>], Inl e)
              | (ss', None) \<Rightarrow>
                  (h1[mod_structure := (h1 ! mod_structure)\<lparr>sites := ss'\<rparr>], Inr mod_structure))))"

text \<open>\<^verbatim>\<open>find_empty_sites(mod_structure)\<close> is called with the default \<^verbatim>\<open>min_distance=1.5\<close>.\<close>

definition apply_defect :: "externals \<Rightarrow> heap \<Rightarrow> nat \<Rightarrow> delta \<Rightarrow> heap \<times> (error + nat)" where
  "apply_defect ext h p dl =
     apply_defect_with (is_element ext) (\<lambda>s. find_empty_sites ext s (3 / 2)) h p dl"

text \<open>
  What a caller holding only the argument and the result sees: the structure returned
  for a structure passed in.
\<close>

definition apply_defect_value :: "externals \<Rightarrow> Structure \<Rightarrow> delta \<Rightarrow> error + Structure" where
  "apply_defect_value ext s dl =
     (case apply_defect ext [s] 0 dl of
        (h, Inl e) \<Rightarrow> Inl e
      | (h, Inr q) \<Rightarrow> Inr (h ! q))"

section \<open>Supercell builder\<close>

text \<open>
  \<^verbatim>\<open>PhonopyAtoms(symbols=..., cell=..., scaled_positions=...)\<close>, and the two conversions
  of the script.
\<close>

record PhonopyAtoms =
  symbols :: "string list"
  cell :: lattice_matrix
  scaled_positions :: "vec3 list"

definition structure_to_phonopy :: "Structure \<Rightarrow> PhonopyAtoms" where
  "structure_to_phonopy s =
     \<lparr>symbols = map specie (sites s), cell = lattice s,
      scaled_positions = map frac_coords (sites s)\<rparr>"

definition phonopy_to_structure :: "PhonopyAtoms \<Rightarrow> Structure" where
  "phonopy_to_structure pa =
     \<lparr>lattice = cell pa,
      sites = map (\<lambda>(sym, pos). \<lparr>specie = sym, frac_coords = pos\<rparr>)
                (zip (symbols pa) (scaled_positions pa))\<rparr>"

definition scale_vec :: "int \<Rightarrow> vec3 \<Rightarrow> vec3" where
  "scale_vec n v = (case v of (a, b, c) \<Rightarrow> (of_int n * a, of_int n * b, of_int n * c))"

definition offsets :: "int \<times> int \<times> int \<Rightarrow> (nat \<times> nat \<times> nat) list" where
  "offsets m =
     (case m of (nx, ny, nz) \<Rightarrow>
        concat (map (\<lambda>i. concat (map (\<lambda>j. map (\<lambda>k. (i, j, k)) [0..<nat nz]) [0..<nat ny]))
          [0..<nat nx]))"

definition shifted :: "int \<times> int \<times> int \<Rightarrow> vec3 \<Rightarrow> nat \<times> nat \<times> nat \<Rightarrow> vec3" where
  "shifted m pos off =
     (case (m, pos, off) of ((nx, ny, nz), (x, y, z), (i, j, k)) \<Rightarrow>
        ((x + real i) / of_int nx, (y + real j) / of_int ny, (z + real k) / of_int nz))"

text \<open>
  Modelled from the spec: \<^verbatim>\<open>Phonopy(unitcell, supercell_matrix).get_supercell()\<close>, the
  supercell construction of the Phonopy library, which the script calls and the
  repository does not contain. Section 4.1 of the specification: the new lattice is the
  unit-cell lattice with each basis vector scaled by its multiplier; for each original
  site (outer) and each offset \<open>(i, j, k)\<close> with \<open>0 \<le> i < nx\<close>, \<open>0 \<le> j < ny\<close>,
  \<open>0 \<le> k < nz\<close> (nested) a site with the same element at
  \<open>(orig_frac + (i, j, k)) / (nx, ny, nz)\<close>; InvalidMultiplierError if any of the
  multipliers is non-positive.
\<close>

definition get_supercell :: "PhonopyAtoms \<Rightarrow> int \<times> int \<times> int \<Rightarrow> error + PhonopyAtoms" where
  "get_supercell unitcell m =
     (case m of (nx, ny, nz) \<Rightarrow>
        if nx \<le> 0 \<or> ny \<le> 0 \<or> nz \<le> 0 then Inl InvalidMultiplierError
        else
          (let tiles = concat (map (\<lambda>(sym, pos). map (\<lambda>off. (sym, shifted m pos off)) (offsets m))
                         (zip (symbols unitcell) (scaled_positions unitcell)))
           in Inr \<lparr>symbols = map fst tiles,
                   cell = (case cell unitcell of (a, b, c) \<Rightarrow>
                             (scale_vec nx a, scale_vec ny b, scale_vec nz c)),
                   scaled_positions = map snd tiles\<rparr>))"

text \<open>
  \<^verbatim>\<open>build_supercell_with_phonopy\<close>: the script converts, calls Phonopy and converts
  back; it has no check of the multipliers of its own, and an exception of the library
  passes through it.
\<close>

definition build_supercell_with_phonopy :: "Structure \<Rightarrow> int \<times> int \<times> int \<Rightarrow> error + Structure" where
  "build_supercell_with_phonopy s supercell_matrix =
     (let unitcell = structure_to_phonopy s in
      case get_supercell unitcell supercell_matrix of
        Inl e \<Rightarrow> Inl e
      | Inr sc \<Rightarrow> Inr (phonopy_to_structure sc))"

section \<open>Canonical sorter\<close>

definition canonical_order :: "string list" where
  "canonical_order = [''La'', ''Y'', ''Mo'', ''Pb'', ''W'', ''O'']"

text \<open>\<^verbatim>\<open>list.index\<close>, for an element that is in the list.\<close>

definition list_index :: "'a list \<Rightarrow> 'a \<Rightarrow> nat" where
  "list_index xs x = length (takeWhile (\<lambda>y. y \<noteq> x) xs)"

text \<open>
  \<^verbatim>\<open>lambda s: canonical_order.index(s.specie.symbol) if s.specie.symbol in canonical_order else 999\<close>
\<close>

definition canonical_key :: "site \<Rightarrow> nat" where
  "canonical_key s =
     (if specie s \<in> set canonical_order then list_index canonical_order (specie s) else 999)"

text \<open>
  \<^verbatim>\<open>get_sorted_structure(key=...)\<close> sorts the sites with Python's stable \<^verbatim>\<open>sorted\<close>
  and builds a new structure from them with \<^verbatim>\<open>from_sites\<close>, which raises on an empty
  list of sites; \<^const>\<open>sort_key\<close> is a stable insertion sort.
\<close>

definition get_sorted_structure :: "Structure \<Rightarrow> error + Structure" where
  "get_sorted_structure s =
     (if sites s = [] then Inl EmptyStructureError
      else Inr (s\<lparr>sites := sort_key canonical_key (sites s)\<rparr>))"

section \<open>Valence and charge\<close>

text \<open>
  Python's \<^verbatim>\<open>round\<close> of a float to an integer: to the nearest integer, a tie to the
  even one.
\<close>

definition py_round :: "real \<Rightarrow> int" where
  "py_round x =
     (let f = \<lfloor>x\<rfloor>; r = x - of_int f in
      if r < 1 / 2 then f
      else if 1 / 2 < r then f + 1
      else if even f then f else f + 1)"

text \<open>
  Python floats are IEEE 754 doubles: 53 significant bits, every operation rounded to
  the nearest double, a tie to the even significand. A double is held as the real
  number it stands for. \<open>binary_exponent n x 0\<close> is the \<open>e\<close> with \<open>2 ^ e \<le> x < 2 ^ (e + 1)\<close>
  for a positive \<open>x\<close>, found in at most \<open>n\<close> halvings or doublings; 2200 steps cover
  the whole range of doubles. Overflow, subnormal numbers, infinities and NaN are not
  modelled: the valence sums stay far from them.
\<close>

fun binary_exponent :: "nat \<Rightarrow> real \<Rightarrow> int \<Rightarrow> int" where
  "binary_exponent 0 x e = e"
| "binary_exponent (Suc n) x e =
     (if 2 \<le> x then binary_exponent n (x / 2) (e + 1)
      else if x < 1 then binary_exponent n (x * 2) (e - 1)
      else e)"

definition pow2 :: "int \<Rightarrow> real" where
  "pow2 e = (if 0 \<le> e then 2 ^ nat e else 1 / 2 ^ nat (- e))"

definition round_double :: "real \<Rightarrow> real" where
  "round_double x =
     (if x = 0 then 0
      else (let ulp = pow2 (binary_exponent 2200 \<bar>x\<bar> 0 - 52)
            in of_int (py_round (x / ulp)) * ulp))"

text \<open>\<^verbatim>\<open>a + b\<close> on floats (an \<^verbatim>\<open>int\<close> operand is converted first, exactly for 0).\<close>

definition float_add :: "real \<Rightarrow> real \<Rightarrow> real" where
  "float_add a b = round_double (a + b)"

text \<open>
  The entries of a POTCAR, each with its element and the decimal number written as its
  \<^verbatim>\<open>ZVAL\<close>. \<^verbatim>\<open>p.zval\<close> is that number parsed by \<^verbatim>\<open>float\<close>, the nearest double. The
  dict comprehension \<^verbatim>\<open>{p.element: p.zval for p in potcar}\<close> keeps the last entry of
  an element.
\<close>

type_synonym potcar = "(string \<times> real) list"

definition zval_of :: "potcar \<Rightarrow> string \<Rightarrow> real option" where
  "zval_of potcar elem = map_option round_double (map_of (rev potcar) elem)"

text \<open>
  The loop of \<^verbatim>\<open>get_valence_electrons\<close> over the sites, with the running total:
  \<^verbatim>\<open>total += zval[sym]\<close> is a float addition, done in the order of the sites.
\<close>

fun valence_loop :: "(string \<Rightarrow> real option) \<Rightarrow> site list \<Rightarrow> real \<Rightarrow> error + real" where
  "valence_loop zval [] tot = Inr tot"
| "valence_loop zval (s # ss) tot =
     (case zval (specie s) of
        None \<Rightarrow> Inl (UnknownElementError (specie s))
      | Some v \<Rightarrow> valence_loop zval ss (float_add tot v))"

definition valence_sum :: "potcar \<Rightarrow> Structure \<Rightarrow> error + real" where
  "valence_sum potcar s = valence_loop (zval_of potcar) (sites s) 0"

text \<open>
  \<^verbatim>\<open>round(get_valence_electrons(structure, ...)) + spec.get("charge", 0)\<close>, for the
  entries of the POTCAR already read. The rounded sum and the charge are Python
  integers, so this last addition is exact.
\<close>

definition total_electrons :: "Structure \<Rightarrow> potcar \<Rightarrow> int \<Rightarrow> error + int" where
  "total_electrons s potcar net_charge =
     (case valence_sum potcar s of
        Inl e \<Rightarrow> Inl e
      | Inr tot \<Rightarrow> Inr (py_round tot + net_charge))"

section \<open>Orchestrator\<close>

text \<open>
  The files the script reads and writes. A path is the list of its components below
  the working directory. A file is held as what its reader parses it to; reading it
  with another reader fails.
\<close>

type_synonym path = "string list"

datatype incar_value = IntValue int | StrValue string

datatype file_content =
    PoscarFile Structure
  | IncarFile "(string \<times> incar_value) list"
  | PotcarFile potcar
  | TextFile "string list"

record filesystem =
  dirs :: "path set"
  files :: "path \<Rightarrow> file_content option"

definition write_file :: "filesystem \<Rightarrow> path \<Rightarrow> file_content \<Rightarrow> filesystem" where
  "write_file fs p f = fs\<lparr>files := (files fs)(p \<mapsto> f)\<rparr>"

text \<open>\<^verbatim>\<open>folder.mkdir(exist_ok=True)\<close>\<close>

definition mkdir :: "filesystem \<Rightarrow> path \<Rightarrow> error + filesystem" where
  "mkdir fs p =
     (if files fs p \<noteq> None then Inl (FileExistsError p)
      else Inr (fs\<lparr>dirs := insert p (dirs fs)\<rparr>))"

text \<open>\<^verbatim>\<open>shutil.copy(src, dst)\<close>\<close>

definition copy_file :: "filesystem \<Rightarrow> path \<Rightarrow> path \<Rightarrow> error + filesystem" where
  "copy_file fs src dst =
     (case files fs src of
        None \<Rightarrow> Inl (MissingTemplateError src)
      | Some f \<Rightarrow> Inr (write_file fs dst f))"

definition incar_from_file :: "filesystem \<Rightarrow> path \<Rightarrow> error + (string \<times> incar_value) list" where
  "incar_from_file fs p =
     (case files fs p of
        None \<Rightarrow> Inl (MissingTemplateError p)
      | Some (IncarFile kv) \<Rightarrow> Inr kv
      | Some _ \<Rightarrow> Inl (ResourceReadError p))"

definition potcar_from_file :: "filesystem \<Rightarrow> path \<Rightarrow> error + potcar" where
  "potcar_from_file fs p =
     (case files fs p of
        None \<Rightarrow> Inl (MissingTemplateError p)
      | Some (PotcarFile pc) \<Rightarrow> Inr pc
      | Some _ \<Rightarrow> Inl (ResourceReadError p))"

text \<open>\<^verbatim>\<open>path.read_text().splitlines()\<close>\<close>

definition read_lines :: "filesystem \<Rightarrow> path \<Rightarrow> error + string list" where
  "read_lines fs p =
     (case files fs p of
        None \<Rightarrow> Inl (MissingTemplateError p)
      | Some (TextFile ls) \<Rightarrow> Inr ls
      | Some _ \<Rightarrow> Inl (ResourceReadError p))"

text \<open>\<^verbatim>\<open>get_valence_electrons(structure, potcar_path)\<close>: read the POTCAR, then sum.\<close>

definition get_valence_electrons :: "filesystem \<Rightarrow> Structure \<Rightarrow> path \<Rightarrow> error + real" where
  "get_valence_electrons fs s potcar_path =
     (case potcar_from_file fs potcar_path of
        Inl e \<Rightarrow> Inl e
      | Inr potcar \<Rightarrow> valence_sum potcar s)"

text \<open>\<^verbatim>\<open>incar["NELECT"] = nelect\<close>: a present key keeps its place, a new one goes last.\<close>

fun set_key :: "string \<Rightarrow> incar_value \<Rightarrow> (string \<times> incar_value) list \<Rightarrow> (string \<times> incar_value) list" where
  "set_key k v [] = [(k, v)]"
| "set_key k v ((k', v') # kvs) = (if k' = k then (k, v) # kvs else (k', v') # set_key k v kvs)"

definition get_template_folder :: "delta \<Rightarrow> string" where
  "get_template_folder dl =
     (let elements_added = map fst (filter (\<lambda>(k, v). v > 0) dl) in
      if ''La'' \<in> set elements_added then ''La_Pb_W_O''
      else if ''Y'' \<in> set elements_added then ''Y_Pb_W_O''
      else if ''Mo'' \<in> set elements_added then ''Mo_Pb_W_O''
      else ''Pb_W_O'')"

text \<open>\<^verbatim>\<open>str.strip\<close> and \<^verbatim>\<open>str.startswith\<close>, on ASCII text.\<close>

definition is_space :: "char \<Rightarrow> bool" where
  "is_space c = (c \<in> set [CHR '' '', CHR 0x09, CHR 0x0A, CHR 0x0B, CHR 0x0C, CHR 0x0D,
                         CHR 0x1C, CHR 0x1D, CHR 0x1E, CHR 0x1F])"

definition strip :: "string \<Rightarrow> string" where
  "strip s = rev (dropWhile is_space (rev (dropWhile is_space s)))"

definition startswith :: "string \<Rightarrow> string \<Rightarrow> bool" where
  "startswith s prefix = (take (length prefix) s = prefix)"

definition patch_job_line :: "string \<Rightarrow> string \<Rightarrow> string" where
  "patch_job_line name line =
     (if startswith (strip line) ''#SBATCH --job-name='' then ''#SBATCH --job-name='' @ name
      else line)"

text \<open>
  An entry of \<^verbatim>\<open>defect_modifications.json\<close>: both keys may be absent. The globals the
  loop reads: the unit cell, the multipliers from the command line, and the library
  parameters.
\<close>

record defect_spec =
  delta :: "delta option"
  charge :: "int option"

record config =
  library :: externals
  unitcell_structure :: Structure
  supercell_size :: "int \<times> int \<times> int"

definition input_root :: path where
  "input_root = [''z_input'']"

text \<open>
  Lines 152 to 154: the supercell, the delta (\<^verbatim>\<open>spec.get("delta", {})\<close>) and the
  sort. Nothing is written yet.
\<close>

definition build_structure :: "config \<Rightarrow> defect_spec \<Rightarrow> error + Structure" where
  "build_structure cfg spec =
     (case build_supercell_with_phonopy (unitcell_structure cfg) (supercell_size cfg) of
        Inl e \<Rightarrow> Inl e
      | Inr s0 \<Rightarrow>
          (case apply_defect_value (library cfg) s0 (case delta spec of None \<Rightarrow> [] | Some d \<Rightarrow> d) of
             Inl e \<Rightarrow> Inl e
           | Inr s1 \<Rightarrow> get_sorted_structure s1))"

text \<open>
  Lines 158 to 183, after the POSCAR is written: the template (\<^verbatim>\<open>spec["delta"]\<close>
  raises KeyError when the key is absent), the two checks, the three copies, the
  electron count written into the INCAR, and the job script.
\<close>

definition write_inputs ::
  "filesystem \<Rightarrow> string \<Rightarrow> defect_spec \<Rightarrow> Structure \<Rightarrow> filesystem \<times> (error + int)" where
  "write_inputs fs name spec s =
     (let folder = [name] in
      case delta spec of
        None \<Rightarrow> (fs, Inl (KeyError ''delta''))
      | Some d \<Rightarrow>
          (let template = input_root @ [get_template_folder d] in
           if files fs (template @ [''POTCAR'']) = None then
             (fs, Inl (MissingTemplateError (template @ [''POTCAR''])))
           else if files fs (input_root @ [''KPOINTS'']) = None then
             (fs, Inl (MissingTemplateError (input_root @ [''KPOINTS''])))
           else
             (case copy_file fs (template @ [''INCAR'']) (folder @ [''INCAR'']) of
                Inl e \<Rightarrow> (fs, Inl e)
              | Inr fs1 \<Rightarrow>
             (case copy_file fs1 (template @ [''POTCAR'']) (folder @ [''POTCAR'']) of
                Inl e \<Rightarrow> (fs1, Inl e)
              | Inr fs2 \<Rightarrow>
             (case copy_file fs2 (input_root @ [''KPOINTS'']) (folder @ [''KPOINTS'']) of
                Inl e \<Rightarrow> (fs2, Inl e)
              | Inr fs3 \<Rightarrow>
             (case incar_from_file fs3 (folder @ [''INCAR'']) of
                Inl e \<Rightarrow> (fs3, Inl e)
              | Inr incar \<Rightarrow>
             (case get_valence_electrons fs3 s (folder @ [''POTCAR'']) of
                Inl e \<Rightarrow> (fs3, Inl e)
              | Inr tot \<Rightarrow>
                  (let nelect = py_round tot + (case charge spec of None \<Rightarrow> 0 | Some c \<Rightarrow> c);
                       fs4 = write_file fs3 (folder @ [''INCAR''])
                               (IncarFile (set_key ''NELECT'' (IntValue nelect) incar))
                   in
                   case read_lines fs4 (input_root @ [''job.justhpc'']) of
                     Inl e \<Rightarrow> (fs4, Inl e)
                   | Inr job_lines \<Rightarrow>
                       (write_file fs4 (folder @ [''job.justhpc''])
                          (TextFile (map (patch_job_line name) job_lines)),
                        Inr nelect)))))))))"

text \<open>
  The body of the \<^verbatim>\<open>try\<close> block for one entry: the file system after it, and the
  electron count or the exception that left the block.
\<close>

definition process_defect ::
  "config \<Rightarrow> filesystem \<Rightarrow> string \<Rightarrow> defect_spec \<Rightarrow> filesystem \<times> (error + int)" where
  "process_defect cfg fs name spec =
     (case mkdir fs [name] of
        Inl e \<Rightarrow> (fs, Inl e)
      | Inr fs1 \<Rightarrow>
          (case build_structure cfg spec of
             Inl e \<Rightarrow> (fs1, Inl e)
           | Inr s \<Rightarrow> write_inputs (write_file fs1 [name, ''POSCAR''] (PoscarFile s)) name spec s))"





section \<open>Example inputs\<close>

text \<open>
  Concrete values for the closed examples below: a cubic cell, a unit cell with one
  Pb, one W and one O site, and an executable stand-in for the two library parameters
  (the six symbols of \<^const>\<open>canonical_order\<close> as the element table, and the
  minimum-image distance in the maximum norm of an orthogonal cell).
\<close>

definition cubic_cell :: "real \<Rightarrow> lattice_matrix" where
  "cubic_cell a = ((a, 0, 0), (0, a, 0), (0, 0, a))"

definition axis_distance :: "real \<Rightarrow> real \<Rightarrow> real \<Rightarrow> real" where
  "axis_distance len x y = len * min \<bar>x - y\<bar> (1 - \<bar>x - y\<bar>)"

definition max_norm_distance :: "lattice_matrix \<Rightarrow> vec3 \<Rightarrow> vec3 \<Rightarrow> real" where
  "max_norm_distance L p q =
     (case (L, p, q) of (((a, _, _), (_, b, _), (_, _, c)), (x, y, z), (x', y', z')) \<Rightarrow>
        max (axis_distance a x x') (max (axis_distance b y y') (axis_distance c z z')))"

definition example_library :: externals where
  "example_library =
     \<lparr>is_element = (\<lambda>sym. sym \<in> set canonical_order), get_all_distances = max_norm_distance\<rparr>"

definition example_unitcell :: Structure where
  "example_unitcell =
     \<lparr>lattice = cubic_cell 4,
      sites = [\<lparr>specie = ''Pb'', frac_coords = (0, 0, 0)\<rparr>,
               \<lparr>specie = ''W'', frac_coords = (1 / 2, 1 / 2, 1 / 2)\<rparr>,
               \<lparr>specie = ''O'', frac_coords = (1 / 4, 1 / 4, 1 / 4)\<rparr>]\<rparr>"

definition example_config :: config where
  "example_config =
     \<lparr>library = example_library, unitcell_structure = example_unitcell,
      supercell_size = (1, 1, 1)\<rparr>"

text \<open>
  An empty working directory, and one with the default template family, the shared
  KPOINTS and the job template in \<^verbatim>\<open>z_input\<close>.
\<close>

definition empty_fs :: filesystem where
  "empty_fs = \<lparr>dirs = {}, files = (\<lambda>p. None)\<rparr>"

definition example_fs :: filesystem where
  "example_fs =
     \<lparr>dirs = {[''z_input''], [''z_input'', ''Pb_W_O'']},
      files = map_of
        [([''z_input'', ''Pb_W_O'', ''INCAR''], IncarFile [(''ENCUT'', IntValue 520)]),
         ([''z_input'', ''Pb_W_O'', ''POTCAR''], PotcarFile [(''Pb'', 4), (''W'', 6), (''O'', 6)]),
         ([''z_input'', ''KPOINTS''], TextFile [''Gamma'']),
         ([''z_input'', ''job.justhpc''],
            TextFile [''#SBATCH --job-name=template'', ''srun vasp_std''])]\<rparr>"




section \<open>Notions used in the statements\<close>

text \<open>The scan order of the grid: first axis, then second, then third, ascending.\<close>

definition scan_before :: "vec3 \<Rightarrow> vec3 \<Rightarrow> bool" where
  "scan_before p q =
     (case (p, q) of ((x, y, z), (x', y', z')) \<Rightarrow>
        x < x' \<or> (x = x' \<and> (y < y' \<or> (y = y' \<and> z < z'))))"

text \<open>The points of the grid, as a set.\<close>

definition grid_points :: "vec3 set" where
  "grid_points =
     {(real i / 10, real j / 10, real k / 10) | i j k. i < 10 \<and> j < 10 \<and> k < 10}"

text \<open>Fractional coordinates in \<open>[0, 1)\<close> on every axis.\<close>

definition in_unit_cell :: "vec3 \<Rightarrow> bool" where
  "in_unit_cell p = (case p of (x, y, z) \<Rightarrow> 0 \<le> x \<and> x < 1 \<and> 0 \<le> y \<and> y < 1 \<and> 0 \<le> z \<and> z < 1)"

text \<open>The five artifacts of a defect folder.\<close>

definition artifacts :: "string list" where
  "artifacts = [''POSCAR'', ''INCAR'', ''POTCAR'', ''KPOINTS'', ''job.justhpc'']"

section \<open>Properties of the defect delta applier\<close>

lemma strict_sorted_indices_of: "sorted_wrt (<) (indices_of e ss)"
  unfolding indices_of_def by (rule sorted_wrt_filter) (simp add: strict_sorted_iff)

lemma indices_of_lt: "i \<in> set (indices_of e ss) \<Longrightarrow> i < length ss \<and> specie (ss ! i) = e"
  by (simp add: indices_of_def)

lemma map_nth_indices_of: "map ((!) ss) (indices_of e ss) = filter (\<lambda>s. specie s = e) ss"
proof -
  have "filter (\<lambda>s. specie s = e) (map ((!) ss) [0..<length ss])
        = map ((!) ss) (filter ((\<lambda>s. specie s = e) \<circ> (!) ss) [0..<length ss])"
    by (rule filter_map)
  then show ?thesis by (simp add: indices_of_def map_nth comp_def)
qed

lemma length_indices_of: "length (indices_of e ss) = length (filter (\<lambda>s. specie s = e) ss)"
  using map_nth_indices_of [of ss e] by (metis length_map)

lemma nths_all: "(\<And>i. i < length xs \<Longrightarrow> i \<in> A) \<Longrightarrow> nths xs A = xs"
proof (induction xs arbitrary: A)
  case Nil
  then show ?case by simp
next
  case (Cons x xs)
  have "0 \<in> A" using Cons.prems [of 0] by simp
  moreover have "nths xs {j. Suc j \<in> A} = xs"
    by (rule Cons.IH) (use Cons.prems in auto)
  ultimately show ?case by (simp add: nths_Cons)
qed

lemma nths_cong_lt: "(\<And>i. i < length xs \<Longrightarrow> (i \<in> A) = (i \<in> B)) \<Longrightarrow> nths xs A = nths xs B"
proof (induction xs arbitrary: A B)
  case Nil
  then show ?case by simp
next
  case (Cons x xs)
  have "(0 \<in> A) = (0 \<in> B)" using Cons.prems [of 0] by simp
  moreover have "nths xs {j. Suc j \<in> A} = nths xs {j. Suc j \<in> B}"
    by (rule Cons.IH) (use Cons.prems in auto)
  ultimately show ?case by (simp add: nths_Cons)
qed

lemma nths_remove_sites:
  assumes "i < length ss" "\<forall>j\<in>set js. j < i"
  shows "nths (remove_sites i ss) (- set js) = nths ss (- insert i (set js))"
proof -
  have len: "length (take i ss) = i" using assms(1) by simp
  have tail: "nths (drop (Suc i) ss) {j. j + i \<in> - set js} = drop (Suc i) ss"
    by (rule nths_all) (use assms(2) in auto)
  have lhs: "nths (remove_sites i ss) (- set js) = nths (take i ss) (- set js) @ drop (Suc i) ss"
    unfolding remove_sites_def nths_append len using tail by simp
  have tail2: "nths (drop (Suc i) ss) {j. Suc j \<in> {j. j + i \<in> - insert i (set js)}} = drop (Suc i) ss"
    by (rule nths_all) (use assms(2) in auto)
  have front: "nths (take i ss) (- insert i (set js)) = nths (take i ss) (- set js)"
    by (rule nths_cong_lt) (use len in auto)
  have "nths ss (- insert i (set js))
        = nths (take i ss @ ss ! i # drop (Suc i) ss) (- insert i (set js))"
    using id_take_nth_drop [OF assms(1)] by simp
  also have "\<dots> = nths (take i ss) (- set js) @ drop (Suc i) ss"
    unfolding nths_append nths_Cons len using tail2 front by simp
  finally show ?thesis using lhs by simp
qed

lemma remove_sites_nth: "j < i \<Longrightarrow> i < length ss \<Longrightarrow> remove_sites i ss ! j = ss ! j"
  by (simp add: remove_sites_def nth_append)

lemma length_remove_sites: "i < length ss \<Longrightarrow> length (remove_sites i ss) = length ss - 1"
  by (simp add: remove_sites_def)

lemma remove_loop_desc:
  "sorted_wrt (<) js \<Longrightarrow> \<forall>j\<in>set js. j < length ss \<Longrightarrow>
   remove_loop (rev js) ss rc =
     (nths ss (- set js), rc @ rev (map (\<lambda>j. frac_coords (ss ! j)) js))"
proof (induction js arbitrary: ss rc rule: rev_induct)
  case Nil
  then show ?case by (simp add: nths_all)
next
  case (snoc j js)
  have lt: "\<forall>i\<in>set js. i < j" and sorted: "sorted_wrt (<) js"
    using snoc.prems(1) by (auto simp: sorted_wrt_append)
  have j: "j < length ss" using snoc.prems(2) by simp
  have bound: "\<forall>i\<in>set js. i < length (remove_sites j ss)"
    using lt j by (auto simp: length_remove_sites)
  have same: "map (\<lambda>i. frac_coords (remove_sites j ss ! i)) js = map (\<lambda>i. frac_coords (ss ! i)) js"
    using lt j by (simp add: remove_sites_nth)
  have "remove_loop (rev (js @ [j])) ss rc
        = remove_loop (rev js) (remove_sites j ss) (rc @ [frac_coords (ss ! j)])"
    by simp
  also have "\<dots> = (nths (remove_sites j ss) (- set js),
      (rc @ [frac_coords (ss ! j)]) @ rev (map (\<lambda>i. frac_coords (remove_sites j ss ! i)) js))"
    by (rule snoc.IH [OF sorted bound])
  finally show ?case
    using nths_remove_sites [OF j lt] same by simp
qed

lemma filter_nths_keep:
  "(\<And>j. j < length ss \<Longrightarrow> P (ss ! j) \<Longrightarrow> j \<in> A) \<Longrightarrow> filter P (nths ss A) = filter P ss"
proof (induction ss arbitrary: A)
  case Nil
  then show ?case by simp
next
  case (Cons s ss)
  have tl: "filter P (nths ss {j. Suc j \<in> A}) = filter P ss"
    by (rule Cons.IH) (use Cons.prems in auto)
  have hd: "P s \<Longrightarrow> 0 \<in> A" using Cons.prems [of 0] by simp
  show ?case using tl hd by (auto simp: nths_Cons)
qed



lemma removal_step:
  assumes "k \<le> length (indices_of e ss)"
  shows "remove_loop (rev (sort (take k (indices_of e ss)))) ss rc =
           (nths ss (- set (take k (indices_of e ss))),
            rc @ rev (map (\<lambda>j. frac_coords (ss ! j)) (take k (indices_of e ss))))"
proof -
  have s: "sorted_wrt (<) (take k (indices_of e ss))"
    by (rule sorted_wrt_take) (rule strict_sorted_indices_of)
  then have "sort (take k (indices_of e ss)) = take k (indices_of e ss)"
    by (simp add: strict_sorted_iff sorted_sort_id)
  moreover have "\<forall>j\<in>set (take k (indices_of e ss)). j < length ss"
    using indices_of_lt by (meson in_set_takeD)
  ultimately show ?thesis using remove_loop_desc [OF s] by simp
qed

lemma count_after_removal:
  assumes "e \<noteq> e0"
  shows "length (indices_of e (nths ss (- set (take k (indices_of e0 ss))))) = length (indices_of e ss)"
proof -
  have "filter (\<lambda>s. specie s = e) (nths ss (- set (take k (indices_of e0 ss))))
        = filter (\<lambda>s. specie s = e) ss"
  proof (rule filter_nths_keep)
    fix j assume "j < length ss" "specie (ss ! j) = e"
    then have "j \<notin> set (indices_of e0 ss)" using assms indices_of_lt by blast
    then show "j \<in> - set (take k (indices_of e0 ss))" by (meson ComplI in_set_takeD)
  qed
  then show ?thesis by (simp add: length_indices_of)
qed

lemma removal_phase_error:
  "distinct (map fst dl) \<Longrightarrow>
   snd (removal_phase dl ss rc) =
     map_option (\<lambda>x. InsufficientAtomsError (fst x))
       (List.find (\<lambda>x. snd x < 0 \<and> int (length (indices_of (fst x) ss)) < \<bar>snd x\<bar>) dl)"
proof (induction dl arbitrary: ss rc)
  case Nil
  then show ?case by simp
next
  case (Cons a dl)
  obtain elem change where a: "a = (elem, change)" by (cases a)
  have d: "distinct (map fst dl)" and notin: "elem \<notin> fst ` set dl"
    using Cons.prems a by auto
  show ?case
  proof (cases "change < 0")
    case False
    then show ?thesis using Cons.IH [OF d] a by simp
  next
    case neg: True
    show ?thesis
    proof (cases "int (length (indices_of elem ss)) < \<bar>change\<bar>")
      case True
      then show ?thesis using neg a by simp
    next
      case False
      define k where "k = nat \<bar>change\<bar>"
      define ss' where "ss' = nths ss (- set (take k (indices_of elem ss)))"
      have k: "k \<le> length (indices_of elem ss)" using False k_def by linarith
      have same: "\<And>x. x \<in> set dl \<Longrightarrow>
          (snd x < 0 \<and> int (length (indices_of (fst x) ss')) < \<bar>snd x\<bar>)
          = (snd x < 0 \<and> int (length (indices_of (fst x) ss)) < \<bar>snd x\<bar>)"
      proof -
        fix x assume "x \<in> set dl"
        then have "fst x \<noteq> elem" using notin by auto
        then show "(snd x < 0 \<and> int (length (indices_of (fst x) ss')) < \<bar>snd x\<bar>)
          = (snd x < 0 \<and> int (length (indices_of (fst x) ss)) < \<bar>snd x\<bar>)"
          unfolding ss'_def by (simp add: count_after_removal)
      qed
      have f: "List.find (\<lambda>x. snd x < 0 \<and> int (length (indices_of (fst x) ss')) < \<bar>snd x\<bar>) dl
             = List.find (\<lambda>x. snd x < 0 \<and> int (length (indices_of (fst x) ss)) < \<bar>snd x\<bar>) dl"
        by (rule find_cong) (use same in auto)
      show ?thesis
        using neg False a removal_step [OF k, of rc] Cons.IH [OF d, of ss'] f
        by (simp add: k_def ss'_def Let_def)
    qed
  qed
qed

lemma old_objects_kept:
  "p < length h \<Longrightarrow> take (length h) (fst (apply_defect_with is_el loc h p dl)) = h"
  by (auto simp: apply_defect_with_def copy_def split: prod.splits option.splits)

lemma indices_of_Pb_example: "indices_of ''Pb'' (sites example_unitcell) = [0]"
  by code_simp

text \<open>
  Claim C4. If the delta asks to remove more atoms of some element than the structure
  holds, \<^const>\<open>apply_defect\<close> fails with InsufficientAtomsError, naming the first such
  element in the order of the delta, and the caller sees no mutation: every object that
  was on the heap before the call, the argument among them, is as it was. The keys of
  the delta are distinct, as the keys of a dict are.
\<close>

theorem apply_defect_insufficient_atoms:
  assumes "p < length h" and "distinct (map fst dl)"
    and "(e, c) \<in> set dl" and "c < 0"
    and "int (length (indices_of e (sites (h ! p)))) < \<bar>c\<bar>"
  shows "\<exists>e' c'. List.find (\<lambda>x. snd x < 0 \<and> int (length (indices_of (fst x) (sites (h ! p)))) < \<bar>snd x\<bar>) dl
                   = Some (e', c')
           \<and> snd (apply_defect ext h p dl) = Inl (InsufficientAtomsError e')
           \<and> take (length h) (fst (apply_defect ext h p dl)) = h
           \<and> fst (apply_defect ext h p dl) ! p = h ! p"
proof -
  let ?P = "\<lambda>x. snd x < 0 \<and> int (length (indices_of (fst x) (sites (h ! p)))) < \<bar>snd x\<bar>"
  have "?P (e, c)" using assms by simp
  then have "List.find ?P dl \<noteq> None" using assms(3) unfolding find_None_iff by blast
  then obtain e' c' where f: "List.find ?P dl = Some (e', c')" by (cases "List.find ?P dl") auto
  have cp: "(h @ [h ! p]) ! length h = h ! p" by simp
  have err: "snd (removal_phase dl (sites (h ! p)) []) = Some (InsufficientAtomsError e')"
    using removal_phase_error [OF assms(2), of "sites (h ! p)" "[]"] f by simp
  have 1: "snd (apply_defect ext h p dl) = Inl (InsufficientAtomsError e')"
    using err unfolding apply_defect_def apply_defect_with_def copy_def
    by (auto split: prod.splits option.splits)
  have 2: "take (length h) (fst (apply_defect ext h p dl)) = h"
    unfolding apply_defect_def by (rule old_objects_kept [OF assms(1)])
  have 3: "fst (apply_defect ext h p dl) ! p = h ! p"
    using 2 assms(1) by (metis nth_take)
  show ?thesis using f 1 2 3 by blast
qed

theorem apply_defect_insufficient_atoms_witness:
  "distinct (map fst [(''Pb'', - 2 :: int)])
   \<and> int (length (indices_of ''Pb'' (sites ([example_unitcell] ! 0)))) < \<bar>- 2\<bar>
   \<and> snd (apply_defect example_library [example_unitcell] 0 [(''Pb'', - 2)])
       = Inl (InsufficientAtomsError ''Pb'')
   \<and> fst (apply_defect example_library [example_unitcell] 0 [(''Pb'', - 2)]) ! 0 = example_unitcell"
proof -
  have i: "indices_of ''Pb'' (sites ([example_unitcell] ! 0)) = [0]"
    using indices_of_Pb_example by simp
  have "\<exists>e' c'. List.find (\<lambda>x. snd x < 0
            \<and> int (length (indices_of (fst x) (sites ([example_unitcell] ! 0)))) < \<bar>snd x\<bar>)
            [(''Pb'', - 2)] = Some (e', c')
        \<and> snd (apply_defect example_library [example_unitcell] 0 [(''Pb'', - 2)])
            = Inl (InsufficientAtomsError e')
        \<and> take (length [example_unitcell])
             (fst (apply_defect example_library [example_unitcell] 0 [(''Pb'', - 2)]))
            = [example_unitcell]
        \<and> fst (apply_defect example_library [example_unitcell] 0 [(''Pb'', - 2)]) ! 0
            = [example_unitcell] ! 0"
    by (rule apply_defect_insufficient_atoms [of 0 "[example_unitcell]" "[(''Pb'', - 2)]" "''Pb''" "- 2"])
       (simp_all add: indices_of_Pb_example)
  then show ?thesis by (auto simp: indices_of_Pb_example split: if_splits)
qed

lemma append_loop_exact:
  "0 \<le> added \<Longrightarrow> added < change \<Longrightarrow> change - added \<le> int (length coords) \<Longrightarrow>
   append_loop elem change coords ss added =
     (ss @ map (\<lambda>c. \<lparr>specie = elem, frac_coords = c\<rparr>) (take (nat (change - added)) coords), change)"
proof (induction coords arbitrary: ss added)
  case Nil
  then show ?case by simp
next
  case (Cons c coords)
  show ?case
  proof (cases "added + 1 = change")
    case True
    then have "nat (change - added) = 1" by simp
    then show ?thesis using True by (simp add: Let_def)
  next
    case False
    have n: "nat (change - added) = Suc (nat (change - (added + 1)))"
      using Cons.prems False by linarith
    have "append_loop elem change coords (ss @ [\<lparr>specie = elem, frac_coords = c\<rparr>]) (added + 1)
          = ((ss @ [\<lparr>specie = elem, frac_coords = c\<rparr>])
               @ map (\<lambda>c. \<lparr>specie = elem, frac_coords = c\<rparr>) (take (nat (change - (added + 1))) coords),
             change)"
      by (rule Cons.IH) (use Cons.prems False in auto)
    then show ?thesis using False n by (simp add: Let_def)
  qed
qed

lemma swap_sites:
  assumes k: "k \<le> length (indices_of E ss)" and el: "is_el F"
  defines "R \<equiv> take k (indices_of E ss)"
  defines "ss' \<equiv> nths ss (- set R) @ map (\<lambda>i. \<lparr>specie = F, frac_coords = frac_coords (ss ! i)\<rparr>) (rev R)"
  shows "removal_phase [(E, - int k), (F, int k)] ss []
           = ((nths ss (- set R), rev (map (\<lambda>j. frac_coords (ss ! j)) R)), None)"
    and "removal_phase [(F, int k), (E, - int k)] ss []
           = ((nths ss (- set R), rev (map (\<lambda>j. frac_coords (ss ! j)) R)), None)"
    and "addition_phase is_el loc L [(E, - int k), (F, int k)] (rev (map (\<lambda>j. frac_coords (ss ! j)) R))
           (nths ss (- set R)) = (ss', None)"
    and "addition_phase is_el loc L [(F, int k), (E, - int k)] (rev (map (\<lambda>j. frac_coords (ss ! j)) R))
           (nths ss (- set R)) = (ss', None)"
    and "length ss' = length ss"
proof -
  have lenR: "length R = k" using k by (simp add: R_def)
  have rm0: "k = 0 \<Longrightarrow> nths ss (- set R) = ss \<and> R = []"
    by (simp add: R_def nths_all)
  have step: "remove_loop (rev (sort (take k (indices_of E ss)))) ss []
              = (nths ss (- set R), rev (map (\<lambda>j. frac_coords (ss ! j)) R))"
    using removal_step [OF k, of "[]"] by (simp add: R_def)
  show "removal_phase [(E, - int k), (F, int k)] ss []
           = ((nths ss (- set R), rev (map (\<lambda>j. frac_coords (ss ! j)) R)), None)"
    using step rm0 k by (cases "k = 0") (simp_all add: Let_def)
  show "removal_phase [(F, int k), (E, - int k)] ss []
           = ((nths ss (- set R), rev (map (\<lambda>j. frac_coords (ss ! j)) R)), None)"
    using step rm0 k by (cases "k = 0") (simp_all add: Let_def)
  have app: "0 < k \<Longrightarrow> append_loop F (int k) (rev (map (\<lambda>j. frac_coords (ss ! j)) R)) (nths ss (- set R)) 0
             = (ss', int k)"
    using append_loop_exact [of 0 "int k" "rev (map (\<lambda>j. frac_coords (ss ! j)) R)" F "nths ss (- set R)"]
      lenR by (simp add: ss'_def rev_map)
  have ss'0: "k = 0 \<Longrightarrow> ss' = nths ss (- set R)" using rm0 by (simp add: ss'_def)
  show "addition_phase is_el loc L [(E, - int k), (F, int k)] (rev (map (\<lambda>j. frac_coords (ss ! j)) R))
           (nths ss (- set R)) = (ss', None)"
    using app ss'0 el by (cases "k = 0") simp_all
  show "addition_phase is_el loc L [(F, int k), (E, - int k)] (rev (map (\<lambda>j. frac_coords (ss ! j)) R))
           (nths ss (- set R)) = (ss', None)"
    using app ss'0 el by (cases "k = 0") simp_all
  have "length (nths ss (- set R)) + length R = length ss"
  proof -
    have sub: "set R \<subseteq> {i. i < length ss}" using indices_of_lt unfolding R_def by (meson in_set_takeD mem_Collect_eq subsetI)
    have dis: "distinct R" unfolding R_def using strict_sorted_indices_of [of E ss]
      by (simp add: strict_sorted_iff)
    have "{i. i < length ss \<and> i \<in> - set R} = {i. i < length ss} - set R" by auto
    then have "length (nths ss (- set R)) = card ({i. i < length ss} - set R)"
      by (simp add: length_nths)
    also have "\<dots> = length ss - card (set R)"
      using sub by (simp add: card_Diff_subset)
    finally have l: "length (nths ss (- set R)) = length ss - card (set R)" .
    have c: "card (set R) = length R" using dis by (rule distinct_card)
    have "card (set R) \<le> card {i. i < length ss}" by (rule card_mono) (use sub in auto)
    then have "length R \<le> length ss" using c by simp
    then show ?thesis using l c by simp
  qed
  then show "length ss' = length ss" by (simp add: ss'_def)
qed

text \<open>
  Claim C3. Removing \<open>k\<close> atoms of element \<open>E\<close> (of which the structure has at least
  \<open>k\<close>) and adding \<open>k\<close> atoms of \<open>F\<close> in one call returns a structure with as many
  sites as before; the removed sites are the first \<open>k\<close> sites of \<open>E\<close>, the added sites
  stand at the end, on exactly the vacated coordinates in the order they were recorded,
  and the result is the same for every locator, so the locator has no part in it. This
  holds whether or not \<open>F = E\<close>, and in either order of the two entries.
\<close>

theorem apply_defect_swap:
  assumes "k \<le> length (indices_of E (sites S))" and "is_element ext F"
  shows "\<exists>S'. apply_defect_value ext S [(E, - int k), (F, int k)] = Inr S'
           \<and> apply_defect_value ext S [(F, int k), (E, - int k)] = Inr S'
           \<and> length (sites S') = length (sites S)
           \<and> lattice S' = lattice S
           \<and> sites S' = nths (sites S) (- set (take k (indices_of E (sites S))))
                @ map (\<lambda>i. \<lparr>specie = F, frac_coords = frac_coords (sites S ! i)\<rparr>)
                    (rev (take k (indices_of E (sites S))))
           \<and> (\<forall>loc. apply_defect_with (is_element ext) loc [S] 0 [(E, - int k), (F, int k)]
                      = ([S, S'], Inr 1))"
proof -
  define R where "R = take k (indices_of E (sites S))"
  define ss' where "ss' = nths (sites S) (- set R)
      @ map (\<lambda>i. \<lparr>specie = F, frac_coords = frac_coords (sites S ! i)\<rparr>) (rev R)"
  note sw = swap_sites [OF assms(1), of "is_element ext" F, OF assms(2), folded R_def, folded ss'_def]
  have w1: "apply_defect_with (is_element ext) loc [S] 0 [(E, - int k), (F, int k)]
            = ([S, S\<lparr>sites := ss'\<rparr>], Inr 1)" for loc
    unfolding apply_defect_with_def copy_def using sw(1) sw(3) [of loc "lattice S"]
    by (simp del: removal_phase.simps addition_phase.simps)
  have w2: "apply_defect_with (is_element ext) loc [S] 0 [(F, int k), (E, - int k)]
            = ([S, S\<lparr>sites := ss'\<rparr>], Inr 1)" for loc
    unfolding apply_defect_with_def copy_def using sw(2) sw(4) [of loc "lattice S"]
    by (simp del: removal_phase.simps addition_phase.simps)
  have v1: "apply_defect_value ext S [(E, - int k), (F, int k)] = Inr (S\<lparr>sites := ss'\<rparr>)"
    unfolding apply_defect_value_def apply_defect_def w1 by simp
  have v2: "apply_defect_value ext S [(F, int k), (E, - int k)] = Inr (S\<lparr>sites := ss'\<rparr>)"
    unfolding apply_defect_value_def apply_defect_def w2 by simp
  show ?thesis
    apply (rule exI [of _ "S\<lparr>sites := ss'\<rparr>"])
    using v1 v2 w1 sw(5) by (simp add: ss'_def R_def)
qed

theorem apply_defect_swap_witness:
  "1 \<le> length (indices_of ''Pb'' (sites example_unitcell))
   \<and> is_element example_library ''La''
   \<and> apply_defect_value example_library example_unitcell [(''Pb'', - 1), (''La'', 1)]
       = Inr \<lparr>lattice = cubic_cell 4,
              sites = [\<lparr>specie = ''W'', frac_coords = (1 / 2, 1 / 2, 1 / 2)\<rparr>,
                       \<lparr>specie = ''O'', frac_coords = (1 / 4, 1 / 4, 1 / 4)\<rparr>,
                       \<lparr>specie = ''La'', frac_coords = (0, 0, 0)\<rparr>]\<rparr>"
proof -
  have k: "1 \<le> length (indices_of ''Pb'' (sites example_unitcell))"
    by (simp add: indices_of_Pb_example)
  have el: "is_element example_library ''La''"
    by (simp add: example_library_def canonical_order_def)
  obtain S' where v: "apply_defect_value example_library example_unitcell [(''Pb'', - int 1), (''La'', int 1)] = Inr S'"
    and l: "lattice S' = lattice example_unitcell"
    and s: "sites S' = nths (sites example_unitcell) (- set (take 1 (indices_of ''Pb'' (sites example_unitcell))))
                @ map (\<lambda>i. \<lparr>specie = ''La'', frac_coords = frac_coords (sites example_unitcell ! i)\<rparr>)
                    (rev (take 1 (indices_of ''Pb'' (sites example_unitcell))))"
    using apply_defect_swap [OF k el] by blast
  have "S' = \<lparr>lattice = cubic_cell 4,
              sites = [\<lparr>specie = ''W'', frac_coords = (1 / 2, 1 / 2, 1 / 2)\<rparr>,
                       \<lparr>specie = ''O'', frac_coords = (1 / 4, 1 / 4, 1 / 4)\<rparr>,
                       \<lparr>specie = ''La'', frac_coords = (0, 0, 0)\<rparr>]\<rparr>"
    using l s unfolding indices_of_Pb_example
    by (intro Structure.equality) (simp_all add: example_unitcell_def nths_Cons)
  then show ?thesis using v k el by simp
qed

text \<open>
  Claim C2, evaluated on the delta \<^verbatim>\<open>{"Pb": -1, "La": 1, "Y": 1}\<close>: the one vacated
  coordinate \<open>(0, 0, 0)\<close> is given to the La atom and then again to the Y atom, since
  the addition loop reads \<^verbatim>\<open>removed_coords\<close> from its start for every element and
  never removes an entry; the locator is not called.
\<close>

theorem apply_defect_reuses_vacancy:
  "apply_defect_value example_library example_unitcell [(''Pb'', - 1), (''La'', 1), (''Y'', 1)]
    = Inr \<lparr>lattice = cubic_cell 4,
           sites = [\<lparr>specie = ''W'', frac_coords = (1 / 2, 1 / 2, 1 / 2)\<rparr>,
                    \<lparr>specie = ''O'', frac_coords = (1 / 4, 1 / 4, 1 / 4)\<rparr>,
                    \<lparr>specie = ''La'', frac_coords = (0, 0, 0)\<rparr>,
                    \<lparr>specie = ''Y'', frac_coords = (0, 0, 0)\<rparr>]\<rparr>"
  by code_simp

section \<open>Properties of the valence and charge calculator\<close>










text \<open>
  Line 171 of the script, on a POTCAR file that parses to the table \<open>V\<close>, computes
  \<^const>\<open>total_electrons\<close>.
\<close>

lemma total_electrons_from_file:
  "files fs p = Some (PotcarFile V) \<Longrightarrow>
   (case get_valence_electrons fs S p of
      Inl e \<Rightarrow> Inl e
    | Inr tot \<Rightarrow> Inr (py_round tot + c)) = total_electrons S V c"
  by (simp add: get_valence_electrons_def potcar_from_file_def total_electrons_def)









section \<open>Properties of the supercell builder\<close>

lemma length_concat_const:
  "(\<And>x. x \<in> set xs \<Longrightarrow> length (f x) = n) \<Longrightarrow> length (concat (map f xs)) = length xs * n"
  by (induction xs) auto

lemma length_offsets: "length (offsets (nx, ny, nz)) = nat nx * nat ny * nat nz"
proof -
  have inner: "length (concat (map (\<lambda>j. map (\<lambda>k. (i, j, k)) [0..<nat nz]) [0..<nat ny])) = nat ny * nat nz"
    for i :: nat
    using length_concat_const [of "[0..<nat ny]" "\<lambda>j. map (\<lambda>k. (i, j, k)) [0..<nat nz]" "nat nz"]
    by simp
  show ?thesis
    unfolding offsets_def
    using length_concat_const [of "[0..<nat nx]"
        "\<lambda>i. concat (map (\<lambda>j. map (\<lambda>k. (i, j, k)) [0..<nat nz]) [0..<nat ny])" "nat ny * nat nz"]
      inner by (simp add: mult.assoc)
qed

lemma set_offsets:
  "(i, j, k) \<in> set (offsets (nx, ny, nz)) \<Longrightarrow> i < nat nx \<and> j < nat ny \<and> k < nat nz"
  by (auto simp: offsets_def)

lemma axis_in_range:
  fixes x :: real
  assumes "0 \<le> x" "x < 1" "i < nat n"
  shows "0 \<le> (x + real i) / of_int n \<and> (x + real i) / of_int n < 1"
proof -
  have n: "0 < n" using assms(3) by linarith
  have "int i + 1 \<le> n" using assms(3) by linarith
  then have "real_of_int (int i + 1) \<le> of_int n" by (rule iffD2 [OF of_int_le_iff])
  then have "real i + 1 \<le> of_int n" by simp
  then have "x + real i < of_int n" using assms(2) by linarith
  moreover have "0 \<le> x + real i" using assms(1) by simp
  ultimately show ?thesis using n by simp
qed

lemma shifted_in_unit_cell:
  assumes "in_unit_cell pos" "off \<in> set (offsets m)"
  shows "in_unit_cell (shifted m pos off)"
proof -
  obtain nx ny nz where m: "m = (nx, ny, nz)" by (cases m)
  obtain x y z where p: "pos = (x, y, z)" by (cases pos)
  obtain i j k where off: "off = (i, j, k)" by (cases off)
  have b: "i < nat nx" "j < nat ny" "k < nat nz"
    using set_offsets assms(2) unfolding m off by blast+
  show ?thesis
    using assms(1) axis_in_range [of x i nx] axis_in_range [of y j ny] axis_in_range [of z k nz] b
    unfolding m p off by (simp add: in_unit_cell_def shifted_def)
qed

lemma tiles_sites:
  "map (\<lambda>(sym, pos). \<lparr>specie = sym, frac_coords = pos\<rparr>)
     (concat (map (\<lambda>(sym, pos). map (\<lambda>off. (sym, g pos off)) offs)
        (zip (map specie ss) (map frac_coords ss))))
   = concat (map (\<lambda>s. map (\<lambda>off. \<lparr>specie = specie s, frac_coords = g (frac_coords s) off\<rparr>) offs) ss)"
  by (induction ss) (simp_all add: comp_def)

lemma length_tiles:
  "length (concat (map (\<lambda>s. map (h s) offs) ss)) = length ss * length offs"
  by (induction ss) simp_all

lemma get_supercell_positive:
  assumes "0 < nx" "0 < ny" "0 < nz"
  shows "get_supercell u (nx, ny, nz) =
     Inr \<lparr>symbols = map fst (concat (map (\<lambda>(sym, pos). map (\<lambda>off. (sym, shifted (nx, ny, nz) pos off)) (offsets (nx, ny, nz)))
                         (zip (symbols u) (scaled_positions u)))),
          cell = (case cell u of (a, b, c) \<Rightarrow> (scale_vec nx a, scale_vec ny b, scale_vec nz c)),
          scaled_positions = map snd (concat (map (\<lambda>(sym, pos). map (\<lambda>off. (sym, shifted (nx, ny, nz) pos off)) (offsets (nx, ny, nz)))
                         (zip (symbols u) (scaled_positions u))))\<rparr>"
  using assms by (simp add: get_supercell_def Let_def)

lemma build_supercell_positive:
  assumes "0 < nx" "0 < ny" "0 < nz"
  shows "build_supercell_with_phonopy S (nx, ny, nz) =
     Inr \<lparr>lattice = (case lattice S of (a, b, c) \<Rightarrow> (scale_vec nx a, scale_vec ny b, scale_vec nz c)),
          sites = concat (map (\<lambda>s. map (\<lambda>off. \<lparr>specie = specie s, frac_coords = shifted (nx, ny, nz) (frac_coords s) off\<rparr>)
                                     (offsets (nx, ny, nz))) (sites S))\<rparr>"
proof -
  let ?tiles = "concat (map (\<lambda>(sym, pos). map (\<lambda>off. (sym, shifted (nx, ny, nz) pos off)) (offsets (nx, ny, nz)))
                         (zip (map specie (sites S)) (map frac_coords (sites S))))"
  have z: "zip (map fst ?tiles) (map snd ?tiles) = ?tiles"
    by (simp add: zip_map_fst_snd)
  have t: "map (\<lambda>(sym, pos). \<lparr>specie = sym, frac_coords = pos\<rparr>) ?tiles
           = concat (map (\<lambda>s. map (\<lambda>off. \<lparr>specie = specie s, frac_coords = shifted (nx, ny, nz) (frac_coords s) off\<rparr>)
                                     (offsets (nx, ny, nz))) (sites S))"
    by (rule tiles_sites)
  show ?thesis
    unfolding build_supercell_with_phonopy_def Let_def get_supercell_positive [OF assms]
    by (simp add: phonopy_to_structure_def structure_to_phonopy_def z t)
qed

text \<open>
  Claim C7. For positive multipliers the builder returns a structure with
  \<open>nx * ny * nz\<close> times the sites of the unit cell, and if the fractional coordinates of
  the unit cell lie in \<open>[0, 1)\<close>, so do those of the supercell. The tiling is the
  specification's account of the Phonopy call.
\<close>

theorem supercell_count_and_range:
  assumes "0 < nx" "0 < ny" "0 < nz"
  shows "\<exists>S'. build_supercell_with_phonopy S (nx, ny, nz) = Inr S'
           \<and> int (length (sites S')) = nx * ny * nz * int (length (sites S))
           \<and> ((\<forall>s\<in>set (sites S). in_unit_cell (frac_coords s))
                \<longrightarrow> (\<forall>s\<in>set (sites S'). in_unit_cell (frac_coords s)))"
proof -
  let ?S' = "\<lparr>lattice = (case lattice S of (a, b, c) \<Rightarrow> (scale_vec nx a, scale_vec ny b, scale_vec nz c)),
          sites = concat (map (\<lambda>s. map (\<lambda>off. \<lparr>specie = specie s, frac_coords = shifted (nx, ny, nz) (frac_coords s) off\<rparr>)
                                     (offsets (nx, ny, nz))) (sites S))\<rparr>"
  have b: "build_supercell_with_phonopy S (nx, ny, nz) = Inr ?S'"
    by (rule build_supercell_positive [OF assms])
  have "length (sites ?S') = length (sites S) * (nat nx * nat ny * nat nz)"
    by (simp add: length_tiles length_offsets)
  then have l: "int (length (sites ?S')) = nx * ny * nz * int (length (sites S))"
    using assms by (simp add: mult.commute mult.left_commute)
  have r: "(\<forall>s\<in>set (sites S). in_unit_cell (frac_coords s))
           \<longrightarrow> (\<forall>s\<in>set (sites ?S'). in_unit_cell (frac_coords s))"
    by (auto intro: shifted_in_unit_cell)
  show ?thesis using b l r by blast
qed

theorem supercell_count_and_range_witness:
  "(0 :: int) < 2
   \<and> list_all (\<lambda>s. in_unit_cell (frac_coords s)) (sites example_unitcell)
   \<and> (case build_supercell_with_phonopy example_unitcell (2, 2, 2) of
         Inl e \<Rightarrow> False
       | Inr S' \<Rightarrow> length (sites S') = 24 \<and> list_all (\<lambda>s. in_unit_cell (frac_coords s)) (sites S'))"
proof -
  have u: "\<forall>s\<in>set (sites example_unitcell). in_unit_cell (frac_coords s)"
    by (simp add: example_unitcell_def in_unit_cell_def)
  obtain S' where b: "build_supercell_with_phonopy example_unitcell (2, 2, 2) = Inr S'"
    and l: "int (length (sites S')) = 2 * 2 * 2 * int (length (sites example_unitcell))"
    and r: "(\<forall>s\<in>set (sites example_unitcell). in_unit_cell (frac_coords s))
              \<longrightarrow> (\<forall>s\<in>set (sites S'). in_unit_cell (frac_coords s))"
    using supercell_count_and_range [of 2 2 2 example_unitcell] by auto
  have "length (sites S') = 24" using l by (simp add: example_unitcell_def)
  then show ?thesis using b r u by (simp add: list_all_iff)
qed

text \<open>
  Claim C8. With a multiplier that is zero or negative the builder fails with
  InvalidMultiplierError. The check is the one the specification ascribes to the
  Phonopy call; the script adds none and lets the failure pass through.
\<close>

theorem supercell_rejects_nonpositive:
  assumes "nx \<le> 0 \<or> ny \<le> 0 \<or> nz \<le> 0"
  shows "build_supercell_with_phonopy S (nx, ny, nz) = Inl InvalidMultiplierError"
  using assms by (auto simp: build_supercell_with_phonopy_def get_supercell_def)


theorem supercell_rejects_nonpositive_witness:
  "build_supercell_with_phonopy example_unitcell (0, 2, 2) = Inl InvalidMultiplierError
   \<and> build_supercell_with_phonopy example_unitcell (2, - 1, 2) = Inl InvalidMultiplierError"
  using supercell_rejects_nonpositive [of 0 2 2 example_unitcell]
    supercell_rejects_nonpositive [of 2 "- 1" 2 example_unitcell]
  by simp

section \<open>Properties of the empty-site locator\<close>

lemma sorted_wrt_concat_map:
  "sorted_wrt (<) xs \<Longrightarrow> (\<And>x. x \<in> set xs \<Longrightarrow> sorted_wrt R (f x)) \<Longrightarrow>
   (\<And>x x' a b. x \<in> set xs \<Longrightarrow> x' \<in> set xs \<Longrightarrow> x < x' \<Longrightarrow> a \<in> set (f x) \<Longrightarrow> b \<in> set (f x') \<Longrightarrow> R a b) \<Longrightarrow>
   sorted_wrt R (concat (map f xs))"
proof (induction xs)
  case Nil
  then show ?case by simp
next
  case (Cons x xs)
  have "sorted_wrt R (concat (map f xs))"
  proof (rule Cons.IH)
    show "sorted_wrt (<) xs" using Cons.prems(1) by simp
    show "sorted_wrt R (f y)" if "y \<in> set xs" for y using Cons.prems(2) that by simp
    show "R a b" if "y \<in> set xs" "y' \<in> set xs" "y < y'" "a \<in> set (f y)" "b \<in> set (f y')"
      for y y' a b
      using Cons.prems(3) [of y y' a b] that by simp
  qed
  moreover have "sorted_wrt R (f x)" using Cons.prems(2) by simp
  moreover have "\<forall>a\<in>set (f x). \<forall>b\<in>set (concat (map f xs)). R a b"
    using Cons.prems(1,3) by fastforce
  ultimately show ?case by (simp add: sorted_wrt_append)
qed

lemma linspace_sorted: "sorted_wrt (<) (linspace n)"
proof -
  have "sorted_wrt (\<lambda>i j. real i / real n < real j / real n) [0..<n]"
  proof (rule sorted_wrt_mono_rel [of _ "(<)"])
    fix i j assume "i \<in> set [0..<n]" "j \<in> set [0..<n]" "i < j"
    then have "0 < real n" "real i < real j" by simp_all
    then show "real i / real n < real j / real n" by (simp add: divide_strict_right_mono)
  next
    show "sorted_wrt (<) [0..<n]" by (simp add: strict_sorted_iff)
  qed
  then show ?thesis by (simp add: linspace_def sorted_wrt_map)
qed

lemma set_linspace: "set (linspace n) = {real i / real n | i. i < n}"
  by (auto simp: linspace_def)

lemma far_from_all_iff:
  "far_from_all ext S d c = (\<forall>s\<in>set (sites S). d < get_all_distances ext (lattice S) c (frac_coords s))"
  by (simp add: far_from_all_def list_all_iff)

lemma set_find_empty_sites:
  "set (find_empty_sites ext S d) =
     {(x, y, z). x \<in> set (linspace grid_size) \<and> y \<in> set (linspace grid_size)
        \<and> z \<in> set (linspace grid_size) \<and> far_from_all ext S d (x, y, z)}"
  by (auto simp: find_empty_sites_def split: if_splits)

lemma sorted_find_empty_sites: "sorted_wrt scan_before (find_empty_sites ext S d)"
  unfolding find_empty_sites_def
proof (rule sorted_wrt_concat_map [OF linspace_sorted], goal_cases)
  case (1 x)
  show ?case
  proof (rule sorted_wrt_concat_map [OF linspace_sorted], goal_cases)
    case (1 y)
    show ?case
    proof (rule sorted_wrt_concat_map [OF linspace_sorted], goal_cases)
      case (1 z)
      then show ?case by simp
    next
      case (2 z z' a b)
      then show ?case by (auto simp: scan_before_def split: if_splits)
    qed
  next
    case (2 y y' a b)
    then show ?case by (auto simp: scan_before_def split: if_splits)
  qed
next
  case (2 x x' a b)
  then show ?case by (auto simp: scan_before_def split: if_splits)
qed

text \<open>
  Claim C6. The candidates returned by \<^const>\<open>find_empty_sites\<close> are exactly the
  points of the \<open>10 \<times> 10 \<times> 10\<close> grid whose distance to every site of the structure is
  strictly greater than \<open>min_distance\<close>; they come in scan order (first axis, then
  second, then third, strictly ascending, so without repetition), and they lie in
  \<open>[0, 1)\<close> on every axis. The result is a function of the structure, the distance and
  \<open>min_distance\<close>, so two calls on the same inputs return the same list.
\<close>

theorem find_empty_sites_sound_ordered:
  "sorted_wrt scan_before (find_empty_sites ext S d)
   \<and> set (find_empty_sites ext S d)
       = {c \<in> grid_points. \<forall>s\<in>set (sites S). d < get_all_distances ext (lattice S) c (frac_coords s)}
   \<and> (\<forall>c\<in>set (find_empty_sites ext S d). in_unit_cell c)"
proof -
  have g: "{(x, y, z). x \<in> set (linspace grid_size) \<and> y \<in> set (linspace grid_size)
        \<and> z \<in> set (linspace grid_size)} = grid_points"
    by (auto simp: set_linspace grid_size_def grid_points_def)
  have s: "set (find_empty_sites ext S d)
       = {c \<in> grid_points. \<forall>s\<in>set (sites S). d < get_all_distances ext (lattice S) c (frac_coords s)}"
    unfolding set_find_empty_sites far_from_all_iff using g by auto
  have u: "\<forall>c\<in>grid_points. in_unit_cell c"
    by (auto simp: grid_points_def in_unit_cell_def)
  show ?thesis using sorted_find_empty_sites s u by auto
qed

theorem find_empty_sites_sound_ordered_witness:
  "(1 / 2, 0, 7 / 10) \<in> set (find_empty_sites example_library example_unitcell (3 / 2))
   \<and> (0, 0, 0) \<notin> set (find_empty_sites example_library example_unitcell (3 / 2))
   \<and> sorted_wrt scan_before (find_empty_sites example_library example_unitcell (3 / 2))"
proof -
  have "(real 5 / 10, real 0 / 10, real 7 / 10) \<in> grid_points"
    unfolding grid_points_def
    by (rule CollectI, rule exI [of _ 5], rule exI [of _ 0], rule exI [of _ 7]) simp
  then have g: "(1 / 2, 0, 7 / 10) \<in> grid_points" by simp
  have far: "\<forall>s\<in>set (sites example_unitcell).
      3 / 2 < get_all_distances example_library (lattice example_unitcell) (1 / 2, 0, 7 / 10) (frac_coords s)"
    by code_simp
  have near: "\<not> (\<forall>s\<in>set (sites example_unitcell).
      3 / 2 < get_all_distances example_library (lattice example_unitcell) (0, 0, 0) (frac_coords s))"
    by code_simp
  note t = find_empty_sites_sound_ordered [of example_library example_unitcell "3 / 2"]
  have s: "set (find_empty_sites example_library example_unitcell (3 / 2))
       = {c \<in> grid_points. \<forall>s\<in>set (sites example_unitcell).
            3 / 2 < get_all_distances example_library (lattice example_unitcell) c (frac_coords s)}"
    using t by (rule conjunct1 [OF conjunct2])
  have 1: "(1 / 2, 0, 7 / 10) \<in> set (find_empty_sites example_library example_unitcell (3 / 2))"
    unfolding s using g far by blast
  have 2: "(0, 0, 0) \<notin> set (find_empty_sites example_library example_unitcell (3 / 2))"
    unfolding s using near by blast
  have 3: "sorted_wrt scan_before (find_empty_sites example_library example_unitcell (3 / 2))"
    using t by (rule conjunct1)
  show ?thesis using 1 2 3 by (intro conjI)
qed

section \<open>Properties of the orchestrator\<close>






lemma write_inputs_success:
  assumes "write_inputs fs name spec s = (fs', Inr n)"
  shows "files fs' [name, ''INCAR''] \<noteq> None \<and> files fs' [name, ''POTCAR''] \<noteq> None
       \<and> files fs' [name, ''KPOINTS''] \<noteq> None \<and> files fs' [name, ''job.justhpc''] \<noteq> None"
  using assms
  by (auto simp: write_inputs_def Let_def copy_file_def write_file_def
      split: option.splits sum.splits if_splits)

lemma write_inputs_frame:
  assumes "p \<notin> {[name, ''INCAR''], [name, ''POTCAR''], [name, ''KPOINTS''], [name, ''job.justhpc'']}"
  shows "files (fst (write_inputs fs name spec s)) p = files fs p"
  using assms
  by (auto simp: write_inputs_def Let_def copy_file_def write_file_def
      split: option.splits sum.splits if_splits)

lemma process_defect_cases:
  "process_defect cfg fs name spec =
     (if files fs [name] \<noteq> None then (fs, Inl (FileExistsError [name]))
      else case build_structure cfg spec of
             Inl e \<Rightarrow> (fs\<lparr>dirs := insert [name] (dirs fs)\<rparr>, Inl e)
           | Inr s \<Rightarrow> write_inputs (write_file (fs\<lparr>dirs := insert [name] (dirs fs)\<rparr>)
                        [name, ''POSCAR''] (PoscarFile s)) name spec s)"
  by (simp add: process_defect_def mkdir_def)

lemma write_inputs_copied:
  assumes "delta spec = Some d"
    and "files fs (input_root @ [get_template_folder d, ''INCAR'']) \<noteq> None"
    and "files fs (input_root @ [get_template_folder d, ''POTCAR'']) \<noteq> None"
    and "files fs (input_root @ [''KPOINTS'']) \<noteq> None"
  shows "files (fst (write_inputs fs name spec s)) [name, ''INCAR''] \<noteq> None
       \<and> files (fst (write_inputs fs name spec s)) [name, ''POTCAR''] \<noteq> None
       \<and> files (fst (write_inputs fs name spec s)) [name, ''KPOINTS''] \<noteq> None"
  using assms
  by (auto simp: write_inputs_def Let_def copy_file_def write_file_def
      split: option.splits sum.splits if_splits)

lemma write_inputs_dirs: "dirs (fst (write_inputs fs name spec s)) = dirs fs"
  by (auto simp: write_inputs_def Let_def copy_file_def write_file_def
      split: option.splits sum.splits if_splits)

text \<open>
  Claim C1, as amended. If the supercell, the delta or the sort fails, no file is
  written. If the entry succeeds, all five artifacts are in its folder. Once the
  structure is built and the folder can be made, the POSCAR is written and stays,
  whatever happens afterwards; if moreover the delta key is there and the template
  INCAR, the template POTCAR and the shared KPOINTS exist, then INCAR, POTCAR and
  KPOINTS are copied and stay, whatever happens afterwards. The folder is made whenever
  no file stands in its place, also when nothing is written into it. Every file that
  changes is one of the five artifacts of the folder.
\<close>

theorem process_defect_artifacts:
  "(\<forall>e. build_structure cfg spec = Inl e \<longrightarrow>
        files (fst (process_defect cfg fs name spec)) = files fs
        \<and> (\<exists>e'. snd (process_defect cfg fs name spec) = Inl e'))
   \<and> (\<forall>n. snd (process_defect cfg fs name spec) = Inr n \<longrightarrow>
        (\<forall>f\<in>set artifacts. files (fst (process_defect cfg fs name spec)) [name, f] \<noteq> None))
   \<and> (\<forall>s. files fs [name] = None \<and> build_structure cfg spec = Inr s \<longrightarrow>
        files (fst (process_defect cfg fs name spec)) [name, ''POSCAR''] = Some (PoscarFile s))
   \<and> (\<forall>s d. files fs [name] = None \<and> build_structure cfg spec = Inr s \<and> delta spec = Some d
          \<and> files fs (input_root @ [get_template_folder d, ''INCAR'']) \<noteq> None
          \<and> files fs (input_root @ [get_template_folder d, ''POTCAR'']) \<noteq> None
          \<and> files fs (input_root @ [''KPOINTS'']) \<noteq> None \<longrightarrow>
        files (fst (process_defect cfg fs name spec)) [name, ''INCAR''] \<noteq> None
        \<and> files (fst (process_defect cfg fs name spec)) [name, ''POTCAR''] \<noteq> None
        \<and> files (fst (process_defect cfg fs name spec)) [name, ''KPOINTS''] \<noteq> None)
   \<and> (files fs [name] = None \<longrightarrow> [name] \<in> dirs (fst (process_defect cfg fs name spec)))
   \<and> (\<forall>p. files (fst (process_defect cfg fs name spec)) p \<noteq> files fs p \<longrightarrow>
        (\<exists>f\<in>set artifacts. p = [name, f]))"
proof -
  have A: "files (fst (process_defect cfg fs name spec)) = files fs
        \<and> (\<exists>e'. snd (process_defect cfg fs name spec) = Inl e')"
    if "build_structure cfg spec = Inl e" for e
    using that by (simp add: process_defect_cases)
  have B: "\<forall>f\<in>set artifacts. files (fst (process_defect cfg fs name spec)) [name, f] \<noteq> None"
    if ok: "snd (process_defect cfg fs name spec) = Inr n" for n
  proof -
    have free: "files fs [name] = None"
      using ok by (auto simp: process_defect_cases split: if_splits)
    then obtain s where s: "build_structure cfg spec = Inr s"
      using ok by (cases "build_structure cfg spec") (auto simp: process_defect_cases)
    define fs1 where
      "fs1 = write_file (fs\<lparr>dirs := insert [name] (dirs fs)\<rparr>) [name, ''POSCAR''] (PoscarFile s)"
    have p: "process_defect cfg fs name spec = write_inputs fs1 name spec s"
      using free s by (simp add: process_defect_cases fs1_def)
    then have w: "write_inputs fs1 name spec s = (fst (write_inputs fs1 name spec s), Inr n)"
      using ok by (metis prod.collapse)
    have four: "files (fst (write_inputs fs1 name spec s)) [name, ''INCAR''] \<noteq> None
         \<and> files (fst (write_inputs fs1 name spec s)) [name, ''POTCAR''] \<noteq> None
         \<and> files (fst (write_inputs fs1 name spec s)) [name, ''KPOINTS''] \<noteq> None
         \<and> files (fst (write_inputs fs1 name spec s)) [name, ''job.justhpc''] \<noteq> None"
      by (rule write_inputs_success [OF w])
    have "files (fst (write_inputs fs1 name spec s)) [name, ''POSCAR''] = files fs1 [name, ''POSCAR'']"
      by (rule write_inputs_frame) simp
    then have poscar: "files (fst (write_inputs fs1 name spec s)) [name, ''POSCAR''] \<noteq> None"
      by (simp add: fs1_def write_file_def)
    show ?thesis
      unfolding p using four poscar by (simp add: artifacts_def)
  qed
  have C: "files (fst (process_defect cfg fs name spec)) [name, ''POSCAR''] = Some (PoscarFile s)"
    if a: "files fs [name] = None \<and> build_structure cfg spec = Inr s" for s
  proof -
    define fs1 where
      "fs1 = write_file (fs\<lparr>dirs := insert [name] (dirs fs)\<rparr>) [name, ''POSCAR''] (PoscarFile s)"
    have p: "process_defect cfg fs name spec = write_inputs fs1 name spec s"
      using a by (simp add: process_defect_cases fs1_def)
    have "files (fst (write_inputs fs1 name spec s)) [name, ''POSCAR''] = files fs1 [name, ''POSCAR'']"
      by (rule write_inputs_frame) simp
    then show ?thesis
      unfolding p by (simp add: fs1_def write_file_def)
  qed
  have E: "files (fst (process_defect cfg fs name spec)) [name, ''INCAR''] \<noteq> None
        \<and> files (fst (process_defect cfg fs name spec)) [name, ''POTCAR''] \<noteq> None
        \<and> files (fst (process_defect cfg fs name spec)) [name, ''KPOINTS''] \<noteq> None"
    if a: "files fs [name] = None \<and> build_structure cfg spec = Inr s \<and> delta spec = Some d
          \<and> files fs (input_root @ [get_template_folder d, ''INCAR'']) \<noteq> None
          \<and> files fs (input_root @ [get_template_folder d, ''POTCAR'']) \<noteq> None
          \<and> files fs (input_root @ [''KPOINTS'']) \<noteq> None" for s d
  proof -
    define fs1 where
      "fs1 = write_file (fs\<lparr>dirs := insert [name] (dirs fs)\<rparr>) [name, ''POSCAR''] (PoscarFile s)"
    have p: "process_defect cfg fs name spec = write_inputs fs1 name spec s"
      using a by (simp add: process_defect_cases fs1_def)
    have t: "files fs1 (input_root @ [get_template_folder d, ''INCAR'']) \<noteq> None"
      "files fs1 (input_root @ [get_template_folder d, ''POTCAR'']) \<noteq> None"
      "files fs1 (input_root @ [''KPOINTS'']) \<noteq> None"
      using a by (simp_all add: fs1_def write_file_def input_root_def)
    have d: "delta spec = Some d" using a by simp
    show ?thesis unfolding p by (rule write_inputs_copied [OF d t])
  qed
  have F: "[name] \<in> dirs (fst (process_defect cfg fs name spec))" if free: "files fs [name] = None"
  proof (cases "build_structure cfg spec")
    case (Inl e)
    then show ?thesis using free by (simp add: process_defect_cases)
  next
    case (Inr s)
    then show ?thesis
      using free by (simp add: process_defect_cases write_inputs_dirs write_file_def)
  qed
  have D: "\<exists>f\<in>set artifacts. p = [name, f]"
    if d: "files (fst (process_defect cfg fs name spec)) p \<noteq> files fs p" for p
  proof (rule ccontr)
    assume n: "\<not> (\<exists>f\<in>set artifacts. p = [name, f])"
    then have out: "p \<notin> {[name, ''INCAR''], [name, ''POTCAR''], [name, ''KPOINTS''], [name, ''job.justhpc'']}"
      and np: "p \<noteq> [name, ''POSCAR'']"
      by (auto simp: artifacts_def)
    have "files (fst (process_defect cfg fs name spec)) p = files fs p"
    proof (cases "files fs [name] \<noteq> None")
      case True
      then show ?thesis by (simp add: process_defect_cases)
    next
      case False
      show ?thesis
      proof (cases "build_structure cfg spec")
        case (Inl e)
        then show ?thesis using False by (simp add: process_defect_cases)
      next
        case (Inr s)
        then show ?thesis
          using False write_inputs_frame [OF out] np
          by (simp add: process_defect_cases write_file_def)
      qed
    qed
    then show False using d by simp
  qed
  show ?thesis using A B C D E F by blast
qed

theorem process_defect_artifacts_witness:
  "snd (process_defect example_config example_fs ''d2'' \<lparr>delta = Some [], charge = Some (- 1)\<rparr>) = Inr 15
   \<and> list_all (\<lambda>f. files (fst (process_defect example_config example_fs ''d2''
                      \<lparr>delta = Some [], charge = Some (- 1)\<rparr>)) [''d2'', f] \<noteq> None) artifacts
   \<and> [''d2''] \<in> dirs (fst (process_defect example_config example_fs ''d2''
                      \<lparr>delta = Some [], charge = Some (- 1)\<rparr>))
   \<and> build_structure example_config \<lparr>delta = Some [(''Pb'', - 2)], charge = None\<rparr>
       = Inl (InsufficientAtomsError ''Pb'')
   \<and> files (fst (process_defect example_config example_fs ''d1''
               \<lparr>delta = Some [(''Pb'', - 2)], charge = None\<rparr>)) = files example_fs
   \<and> build_structure example_config \<lparr>delta = Some [(''Pb'', - 1), (''W'', - 1), (''O'', - 1)], charge = None\<rparr>
       = Inl EmptyStructureError
   \<and> files (fst (process_defect example_config example_fs ''d3''
               \<lparr>delta = Some [(''Pb'', - 1), (''W'', - 1), (''O'', - 1)], charge = None\<rparr>)) = files example_fs"
proof -
  have ok: "snd (process_defect example_config example_fs ''d2'' \<lparr>delta = Some [], charge = Some (- 1)\<rparr>) = Inr 15"
    by code_simp
  have free: "files example_fs [''d2''] = None"
    by (simp add: example_fs_def)
  have bad: "build_structure example_config \<lparr>delta = Some [(''Pb'', - 2)], charge = None\<rparr>
       = Inl (InsufficientAtomsError ''Pb'')"
    by code_simp
  have none: "build_structure example_config
        \<lparr>delta = Some [(''Pb'', - 1), (''W'', - 1), (''O'', - 1)], charge = None\<rparr>
       = Inl EmptyStructureError"
    by code_simp
  note t2 = process_defect_artifacts [of example_config "\<lparr>delta = Some [], charge = Some (- 1)\<rparr>" example_fs "''d2''"]
  note t1 = process_defect_artifacts [of example_config "\<lparr>delta = Some [(''Pb'', - 2)], charge = None\<rparr>" example_fs "''d1''"]
  note t3 = process_defect_artifacts [of example_config
      "\<lparr>delta = Some [(''Pb'', - 1), (''W'', - 1), (''O'', - 1)], charge = None\<rparr>" example_fs "''d3''"]
  have a: "\<forall>f\<in>set artifacts. files (fst (process_defect example_config example_fs ''d2''
                      \<lparr>delta = Some [], charge = Some (- 1)\<rparr>)) [''d2'', f] \<noteq> None"
    using t2 ok by blast
  have f: "[''d2''] \<in> dirs (fst (process_defect example_config example_fs ''d2''
                      \<lparr>delta = Some [], charge = Some (- 1)\<rparr>))"
    using t2 free by blast
  have b: "files (fst (process_defect example_config example_fs ''d1''
               \<lparr>delta = Some [(''Pb'', - 2)], charge = None\<rparr>)) = files example_fs"
    using t1 bad by blast
  have c: "files (fst (process_defect example_config example_fs ''d3''
               \<lparr>delta = Some [(''Pb'', - 1), (''W'', - 1), (''O'', - 1)], charge = None\<rparr>)) = files example_fs"
    using t3 none by blast
  show ?thesis using ok a f bad b none c unfolding list_all_iff by (intro conjI)
qed

text \<open>
  Claim C1 as stated fails: with no template in \<^verbatim>\<open>z_input\<close> the entry fails for the
  missing POTCAR after its POSCAR is written; with a POTCAR that lacks oxygen the
  electron count fails after POSCAR, INCAR, POTCAR and KPOINTS are written and before
  the job script is.
\<close>

theorem partial_output_counterexample:
  "snd (process_defect example_config empty_fs ''d1'' \<lparr>delta = Some [], charge = None\<rparr>)
       = Inl (MissingTemplateError [''z_input'', ''Pb_W_O'', ''POTCAR''])
   \<and> files (fst (process_defect example_config empty_fs ''d1'' \<lparr>delta = Some [], charge = None\<rparr>))
        [''d1'', ''POSCAR''] = Some (PoscarFile example_unitcell)
   \<and> files (fst (process_defect example_config empty_fs ''d1'' \<lparr>delta = Some [], charge = None\<rparr>))
        [''d1'', ''INCAR''] = None
   \<and> snd (process_defect example_config
            (write_file example_fs [''z_input'', ''Pb_W_O'', ''POTCAR''] (PotcarFile [(''Pb'', 4), (''W'', 6)]))
            ''d1'' \<lparr>delta = Some [], charge = None\<rparr>)
       = Inl (UnknownElementError ''O'')
   \<and> files (fst (process_defect example_config
            (write_file example_fs [''z_input'', ''Pb_W_O'', ''POTCAR''] (PotcarFile [(''Pb'', 4), (''W'', 6)]))
            ''d1'' \<lparr>delta = Some [], charge = None\<rparr>)) [''d1'', ''KPOINTS''] = Some (TextFile [''Gamma''])
   \<and> files (fst (process_defect example_config
            (write_file example_fs [''z_input'', ''Pb_W_O'', ''POTCAR''] (PotcarFile [(''Pb'', 4), (''W'', 6)]))
            ''d1'' \<lparr>delta = Some [], charge = None\<rparr>)) [''d1'', ''job.justhpc''] = None"
  by code_simp

text \<open>
  Claim C10, evaluated on an entry without the \<^verbatim>\<open>delta\<close> key: the delta is applied
  as the empty one and the unchanged structure is written as POSCAR, then
  \<^verbatim>\<open>spec["delta"]\<close> raises KeyError, and no INCAR and no electron count is written.
  The same entry with an empty delta succeeds, with the charge taken as 0.
\<close>

theorem missing_delta_key_error:
  "snd (process_defect example_config example_fs ''d1'' \<lparr>delta = None, charge = None\<rparr>)
       = Inl (KeyError ''delta'')
   \<and> files (fst (process_defect example_config example_fs ''d1'' \<lparr>delta = None, charge = None\<rparr>))
        [''d1'', ''POSCAR''] = Some (PoscarFile example_unitcell)
   \<and> files (fst (process_defect example_config example_fs ''d1'' \<lparr>delta = None, charge = None\<rparr>))
        [''d1'', ''INCAR''] = None
   \<and> snd (process_defect example_config example_fs ''d1'' \<lparr>delta = Some [], charge = None\<rparr>)
       = Inr 16"
  by code_simp

end
